theory Spec2Isabelle
  imports Complex_Main
begin

section \<open>Numbers\<close>

text \<open>
  The program computes with JavaScript numbers. Finite values are modelled as exact
  rationals: the rounding of IEEE doubles is not modelled, and neither is the sign of
  zero. What is modelled is the part of the number semantics the program's control flow
  depends on: a division by zero gives \<open>Infinity\<close> or \<open>NaN\<close>, these values propagate
  through the arithmetic, and every comparison with \<open>NaN\<close> is false. All numeric
  inputs (capacity, size, complexity, effort weeks) are finite numbers.
\<close>

datatype jsnum = Fin rat | PInf | NInf | NaN

fun jneg :: "jsnum \<Rightarrow> jsnum" where
  "jneg (Fin a) = Fin (- a)"
| "jneg PInf = NInf"
| "jneg NInf = PInf"
| "jneg NaN = NaN"

fun jadd :: "jsnum \<Rightarrow> jsnum \<Rightarrow> jsnum" where
  "jadd (Fin a) (Fin b) = Fin (a + b)"
| "jadd NaN _ = NaN"
| "jadd _ NaN = NaN"
| "jadd PInf NInf = NaN"
| "jadd NInf PInf = NaN"
| "jadd PInf _ = PInf"
| "jadd _ PInf = PInf"
| "jadd NInf _ = NInf"
| "jadd _ NInf = NInf"

definition jsub :: "jsnum \<Rightarrow> jsnum \<Rightarrow> jsnum" where
  "jsub x y = jadd x (jneg y)"

text \<open>The sign of a number: \<open>1\<close>, \<open>-1\<close>, or \<open>0\<close> for zero and \<open>NaN\<close>.\<close>

fun jsign :: "jsnum \<Rightarrow> int" where
  "jsign (Fin a) = (if 0 < a then 1 else if a < 0 then - 1 else 0)"
| "jsign PInf = 1"
| "jsign NInf = - 1"
| "jsign NaN = 0"

fun jmul :: "jsnum \<Rightarrow> jsnum \<Rightarrow> jsnum" where
  "jmul (Fin a) (Fin b) = Fin (a * b)"
| "jmul NaN _ = NaN"
| "jmul _ NaN = NaN"
| "jmul x y =
     (let s = jsign x * jsign y
      in if s = 0 then NaN else if 0 < s then PInf else NInf)"

text \<open>
  Every division of the program has finite operands: \<open>a / b\<close> is the quotient when
  \<open>b\<close> is not zero, an infinity with the sign of \<open>a\<close> when only \<open>b\<close> is zero, and
  \<open>NaN\<close> for \<open>0 / 0\<close>.
\<close>

definition jdiv :: "rat \<Rightarrow> rat \<Rightarrow> jsnum" where
  "jdiv a b =
     (if b \<noteq> 0 then Fin (a / b)
      else if 0 < a then PInf
      else if a < 0 then NInf
      else NaN)"

fun jlt :: "jsnum \<Rightarrow> jsnum \<Rightarrow> bool" where
  "jlt NaN _ = False"
| "jlt _ NaN = False"
| "jlt (Fin a) (Fin b) = (a < b)"
| "jlt PInf _ = False"
| "jlt _ PInf = True"
| "jlt _ NInf = False"
| "jlt NInf _ = True"

definition jgt :: "jsnum \<Rightarrow> jsnum \<Rightarrow> bool" where
  "jgt x y = jlt y x"

fun jge :: "jsnum \<Rightarrow> jsnum \<Rightarrow> bool" where
  "jge NaN _ = False"
| "jge _ NaN = False"
| "jge x y = (\<not> jlt x y)"

text \<open>\<open>Math.round\<close>: the nearest integer, a tie going up.\<close>

definition Math_round :: "rat \<Rightarrow> int" where
  "Math_round x = \<lfloor>x + 1 / 2\<rfloor>"

fun jround :: "jsnum \<Rightarrow> jsnum" where
  "jround (Fin a) = Fin (of_int (Math_round a))"
| "jround x = x"

section \<open>Strings\<close>

text \<open>
  \<open>toLowerCase\<close> on the ASCII letters, and \<open>String.prototype.includes\<close> (here \<open>str_includes\<close>) as the
  search for a contiguous occurrence.
\<close>

definition lower_char :: "char \<Rightarrow> char" where
  "lower_char c =
     (let n = of_char c :: nat
      in if 65 \<le> n \<and> n \<le> 90 then char_of (n + 32) else c)"

definition toLowerCase :: "string \<Rightarrow> string" where
  "toLowerCase s = map lower_char s"

fun startsWith :: "string \<Rightarrow> string \<Rightarrow> bool" where
  "startsWith _ [] = True"
| "startsWith [] (_ # _) = False"
| "startsWith (c # s) (d # t) = (c = d \<and> startsWith s t)"

fun str_includes :: "string \<Rightarrow> string \<Rightarrow> bool" where
  "str_includes [] t = (t = [])"
| "str_includes (c # s) t = (startsWith (c # s) t \<or> str_includes s t)"

text \<open>\<open>Array.prototype.some\<close>.\<close>

definition some :: "'a list \<Rightarrow> ('a \<Rightarrow> bool) \<Rightarrow> bool" where
  "some xs P = list_ex P xs"

section \<open>Entity model (models.js)\<close>

record MemberAssignment =
  ma_item :: string
  ma_allocation :: rat
  ma_percentage :: int

record TeamMember =
  name :: string
  level :: string
  skills :: "string list"
  capacity :: rat
  interests :: "string list"
  careerGoals :: "string list"
  allocatedCapacity :: rat
  assignments :: "MemberAssignment list"

text \<open>
  The constructor leaves \<open>assignments\<close> undefined; the engine sets it to the empty
  array before its first use, so the undefined value is represented by \<open>[]\<close>.
\<close>

definition new_TeamMember ::
  "string \<Rightarrow> string \<Rightarrow> string list \<Rightarrow> rat \<Rightarrow> string list \<Rightarrow> string list \<Rightarrow> TeamMember" where
  "new_TeamMember n l sk c ins goals =
     \<lparr>name = n, level = l, skills = sk, capacity = c, interests = ins,
      careerGoals = goals, allocatedCapacity = 0, assignments = []\<rparr>"

definition getAvailableCapacity :: "TeamMember \<Rightarrow> rat" where
  "getAvailableCapacity m = max 0 (capacity m - allocatedCapacity m)"

definition fuzzyMatch :: "string \<Rightarrow> string \<Rightarrow> bool" where
  "fuzzyMatch s x =
     (str_includes (toLowerCase s) (toLowerCase x) \<or> str_includes (toLowerCase x) (toLowerCase s))"

definition hasSkill :: "TeamMember \<Rightarrow> string \<Rightarrow> bool" where
  "hasSkill m skill = some (skills m) (\<lambda>s. fuzzyMatch s skill)"

definition hasInterest :: "TeamMember \<Rightarrow> string \<Rightarrow> bool" where
  "hasInterest m area = some (interests m) (\<lambda>i. fuzzyMatch i area)"

definition hasCareerGoal :: "TeamMember \<Rightarrow> string \<Rightarrow> bool" where
  "hasCareerGoal m goal = some (careerGoals m) (\<lambda>g. fuzzyMatch g goal)"

text \<open>
  The table of level weights, read with a lower-cased key; a key that is not in the
  table gives \<open>1.0\<close>. (Keys inherited from the prototype of a JavaScript object, such as
  \<open>constructor\<close>, are not modelled.)
\<close>

definition levelWeights :: "string \<rightharpoonup> rat" where
  "levelWeights =
     [''intern'' \<mapsto> 5 / 10, ''junior'' \<mapsto> 7 / 10, ''mid'' \<mapsto> 1, ''senior'' \<mapsto> 13 / 10,
      ''staff'' \<mapsto> 15 / 10, ''principal'' \<mapsto> 17 / 10, ''architect'' \<mapsto> 18 / 10]"

definition levelWeight :: "string \<Rightarrow> rat" where
  "levelWeight l = (case levelWeights (toLowerCase l) of Some w \<Rightarrow> w | None \<Rightarrow> 1)"

definition getLevelWeight :: "TeamMember \<Rightarrow> rat" where
  "getLevelWeight m = levelWeight (level m)"

record EffortBreakdown =
  ios :: rat
  android :: rat
  web :: rat
  backend :: rat
  effort_total :: rat

datatype status = FullyStaffed | AdequatelyStaffed | UnderStaffed | NotStaffed

record ItemAssignment =
  ia_member :: string
  ia_allocation :: rat
  ia_percentage :: int

record RoadmapItem =
  item_name :: string
  description :: string
  item_size :: rat
  complexity :: rat
  requiredSkills :: "string list"
  domain :: string
  minLevel :: string
  careerOpportunities :: "string list"
  assignedMembers :: "ItemAssignment list"
  priority :: rat
  effortBreakdown :: "EffortBreakdown option"
  allocationStatus :: "status option"

definition calculatePriority :: "rat \<Rightarrow> rat \<Rightarrow> rat" where
  "calculatePriority sz cx = sz * (6 / 10) + cx * (4 / 10)"

text \<open>
  The constructor sets neither \<open>effortBreakdown\<close> nor \<open>allocationStatus\<close>: the
  importer attaches the first, the engine the second.
\<close>

definition new_RoadmapItem ::
  "string \<Rightarrow> string \<Rightarrow> rat \<Rightarrow> rat \<Rightarrow> string list \<Rightarrow> string \<Rightarrow> string \<Rightarrow> string list \<Rightarrow> RoadmapItem" where
  "new_RoadmapItem n d sz cx req dm lvl opps =
     \<lparr>item_name = n, description = d, item_size = sz, complexity = cx,
      requiredSkills = req, domain = dm, minLevel = lvl, careerOpportunities = opps,
      assignedMembers = [], priority = calculatePriority sz cx,
      effortBreakdown = None, allocationStatus = None\<rparr>"

definition getTotalAllocation :: "RoadmapItem \<Rightarrow> rat" where
  "getTotalAllocation it = foldl (\<lambda>sum assignment. sum + ia_allocation assignment) 0 (assignedMembers it)"

definition getRequiredCapacity :: "RoadmapItem \<Rightarrow> rat" where
  "getRequiredCapacity it =
     (case effortBreakdown it of
        Some e \<Rightarrow>
          if 0 < effort_total e then
            (let complexityMultiplier = 1 + (complexity it - 1) * (1 / 10);
                 baseCapacity = effort_total e / 12
             in baseCapacity * complexityMultiplier)
          else (item_size it / 5) * (complexity it / 5) * 2
      | None \<Rightarrow> (item_size it / 5) * (complexity it / 5) * 2)"

definition isFullyStaffed :: "RoadmapItem \<Rightarrow> bool" where
  "isFullyStaffed it = (getTotalAllocation it \<ge> getRequiredCapacity it)"

section \<open>Scoring (models.js, class Allocation)\<close>

text \<open>
  A committed \<open>Allocation\<close> holds references to its member and its item: here their
  positions in the optimizer's two arrays.
\<close>

record Allocation =
  al_member :: nat
  al_item :: nat
  allocation :: rat
  score :: jsnum

datatype platform = Ios | Android | Web | Backend

fun platformSkills :: "platform \<Rightarrow> string list" where
  "platformSkills Ios =
     [''ios'', ''swift'', ''objective-c'', ''mobile development'', ''mobile'', ''app development'']"
| "platformSkills Android =
     [''android'', ''kotlin'', ''java'', ''mobile development'', ''mobile'', ''app development'']"
| "platformSkills Web =
     [''frontend'', ''javascript'', ''react'', ''vue'', ''angular'', ''html'', ''css'',
      ''web development'']"
| "platformSkills Backend =
     [''backend'', ''api'', ''node.js'', ''python'', ''java'', ''database'', ''sql'', ''server'']"

fun effort_of :: "EffortBreakdown \<Rightarrow> platform \<Rightarrow> rat" where
  "effort_of e Ios = ios e"
| "effort_of e Android = android e"
| "effort_of e Web = web e"
| "effort_of e Backend = backend e"

text \<open>One round of the \<open>forEach\<close> over the four platforms.\<close>

definition platformStep :: "TeamMember \<Rightarrow> EffortBreakdown \<Rightarrow> jsnum \<Rightarrow> platform \<Rightarrow> jsnum" where
  "platformStep m effort bonus pf =
     (let platformEffort = effort_of effort pf
      in if 0 < platformEffort then
           (let relevantSkills = platformSkills pf;
                memberSkillsLower = map toLowerCase (skills m);
                hasRelevantSkill =
                  some relevantSkills (\<lambda>skill.
                    some memberSkillsLower (\<lambda>memberSkill. str_includes memberSkill skill))
            in if hasRelevantSkill then
                 (let platformWeight = jdiv platformEffort (effort_total effort)
                  in jadd bonus (jmul platformWeight (Fin 30)))
               else bonus)
         else bonus)"

definition calculatePlatformBonus :: "TeamMember \<Rightarrow> EffortBreakdown \<Rightarrow> jsnum" where
  "calculatePlatformBonus m effort =
     (let bonus = foldl (platformStep m effort) (Fin 0) [Ios, Android, Web, Backend]
      in if 0 < effort_total effort then
           (let platformCount =
                  length (filter (\<lambda>e. 0 < e) [ios effort, android effort, web effort, backend effort])
            in if 2 < platformCount then
                 (let memberSkillsLower = map toLowerCase (skills m);
                      isFullStack =
                        some [''frontend'', ''backend'', ''full-stack'', ''fullstack''] (\<lambda>skill.
                          some memberSkillsLower (\<lambda>memberSkill. str_includes memberSkill skill))
                  in if isFullStack then jadd bonus (Fin 15) else bonus)
               else bonus)
         else bonus)"

text \<open>
  The score of a member for an item at an allocation fraction. The running \<open>score\<close>
  of the source is the chain of \<open>let\<close>s, in the order of the source.
\<close>

definition calculateScore :: "TeamMember \<Rightarrow> RoadmapItem \<Rightarrow> rat \<Rightarrow> jsnum" where
  "calculateScore m it alloc =
     (let score0 = Fin 0;
          skillMatches = length (filter (hasSkill m) (requiredSkills it));
          skillScore = of_nat skillMatches / of_nat (max 1 (length (requiredSkills it)));
          score1 = jadd score0 (Fin (skillScore * 35));
          score2 = (case effortBreakdown it of
                      Some e \<Rightarrow> jadd score1 (calculatePlatformBonus m e)
                    | None \<Rightarrow> score1);
          score3 = (if hasInterest m (domain it) then jadd score2 (Fin 25) else score2);
          careerMatches = length (filter (hasCareerGoal m) (careerOpportunities it));
          score4 = (if 0 < careerMatches then jadd score3 (Fin 20) else score3);
          memberLevelWeight = getLevelWeight m;
          minLevelWeight = levelWeight (minLevel it);
          score5 = (if memberLevelWeight \<ge> minLevelWeight then
                      (if complexity it \<ge> 4 \<and> memberLevelWeight \<ge> 13 / 10
                       then jadd (jadd score4 (Fin 10)) (Fin 10)
                       else jadd score4 (Fin 10))
                    else jsub score4 (Fin 20));
          score6 = jadd score5 (Fin (priority it * 5))
      in jadd score6 (Fin (alloc * 15)))"

definition new_Allocation :: "nat \<Rightarrow> TeamMember \<Rightarrow> nat \<Rightarrow> RoadmapItem \<Rightarrow> rat \<Rightarrow> Allocation" where
  "new_Allocation mi m ii it a =
     \<lparr>al_member = mi, al_item = ii, allocation = a, score = calculateScore m it a\<rparr>"

section \<open>Allocation engine (optimizer.js)\<close>

text \<open>
  The optimizer holds references to the caller's member and item objects and mutates
  them. The two arrays are the store: an object is its position in its array, and the
  objects of an array are distinct (no object is listed twice).
\<close>

record AllocationOptimizer =
  teamMembers :: "TeamMember list"
  roadmapItems :: "RoadmapItem list"
  allocations :: "Allocation list"

definition new_AllocationOptimizer :: "TeamMember list \<Rightarrow> RoadmapItem list \<Rightarrow> AllocationOptimizer" where
  "new_AllocationOptimizer ms its = \<lparr>teamMembers = ms, roadmapItems = its, allocations = []\<rparr>"

text \<open>
  \<open>Array.prototype.sort\<close> with a comparator: a stable sort, where \<open>x\<close> goes behind a
  later element \<open>y\<close> only when \<open>cmp x y\<close> is positive (a comparator result of \<open>NaN\<close>
  counts as zero). For a consistent comparator every stable sort gives this result.
\<close>

fun insert_cmp :: "('a \<Rightarrow> 'a \<Rightarrow> jsnum) \<Rightarrow> 'a \<Rightarrow> 'a list \<Rightarrow> 'a list" where
  "insert_cmp cmp x [] = [x]"
| "insert_cmp cmp x (y # ys) =
     (if jgt (cmp x y) (Fin 0) then y # insert_cmp cmp x ys else x # y # ys)"

definition array_sort :: "('a \<Rightarrow> 'a \<Rightarrow> jsnum) \<Rightarrow> 'a list \<Rightarrow> 'a list" where
  "array_sort cmp xs = foldr (insert_cmp cmp) xs []"

text \<open>A potential allocation: the member (its position) and its probe score.\<close>

definition findPotentialAllocations :: "AllocationOptimizer \<Rightarrow> RoadmapItem \<Rightarrow> (nat \<times> jsnum) list" where
  "findPotentialAllocations s it =
     map (\<lambda>p. (p, calculateScore (teamMembers s ! p) it (3 / 10)))
       (filter (\<lambda>p. getAvailableCapacity (teamMembers s ! p) > 1 / 10)
          [0 ..< length (teamMembers s)])"

text \<open>
  The body of \<open>if (allocationAmount > 0.1)\<close>: the allocation is created, the member's
  and the item's bookkeeping is updated, and the allocation is recorded.
\<close>

definition commit :: "AllocationOptimizer \<Rightarrow> nat \<Rightarrow> nat \<Rightarrow> rat \<Rightarrow> AllocationOptimizer" where
  "commit s p i allocationAmount =
     (let member = teamMembers s ! p;
          item = roadmapItems s ! i;
          alloc = new_Allocation p member i item allocationAmount;
          member' = member
            \<lparr>allocatedCapacity := allocatedCapacity member + allocationAmount,
             assignments := assignments member @
               [\<lparr>ma_item = item_name item, ma_allocation = allocationAmount,
                 ma_percentage = Math_round (allocationAmount * 100)\<rparr>]\<rparr>;
          item' = item
            \<lparr>assignedMembers := assignedMembers item @
               [\<lparr>ia_member = name member, ia_allocation = allocationAmount,
                 ia_percentage = Math_round (allocationAmount * 100)\<rparr>]\<rparr>
      in s\<lparr>teamMembers := (teamMembers s)[p := member'],
           roadmapItems := (roadmapItems s)[i := item'],
           allocations := allocations s @ [alloc]\<rparr>)"

text \<open>
  The loop over the sorted potential allocations of item \<open>i\<close>; it returns the remaining
  capacity with the state. \<open>break\<close> ends the recursion, \<open>continue\<close> goes on with the
  rest.
\<close>

fun allocateLoop ::
  "nat \<Rightarrow> (nat \<times> jsnum) list \<Rightarrow> rat \<Rightarrow> AllocationOptimizer \<Rightarrow> rat \<times> AllocationOptimizer" where
  "allocateLoop i [] remainingCapacity s = (remainingCapacity, s)"
| "allocateLoop i (potential # rest) remainingCapacity s =
     (if remainingCapacity \<le> 0 then (remainingCapacity, s)
      else
        (let p = fst potential;
             availableCapacity = getAvailableCapacity (teamMembers s ! p)
         in if availableCapacity \<le> 0 then allocateLoop i rest remainingCapacity s
            else
              (let allocationAmount = min remainingCapacity (min availableCapacity (1 / 2))
               in if allocationAmount > 1 / 10
                  then allocateLoop i rest (remainingCapacity - allocationAmount)
                         (commit s p i allocationAmount)
                  else allocateLoop i rest remainingCapacity s)))"

definition getItemStatus :: "RoadmapItem \<Rightarrow> rat \<Rightarrow> status" where
  "getItemStatus it allocatedCap =
     (let requiredCapacity = getRequiredCapacity it;
          ratio = jdiv allocatedCap requiredCapacity
      in if jge ratio (Fin (9 / 10)) then FullyStaffed
         else if jge ratio (Fin (6 / 10)) then AdequatelyStaffed
         else if jge ratio (Fin (3 / 10)) then UnderStaffed
         else NotStaffed)"

text \<open>The assignment \<open>item.allocationStatus = st\<close> to item \<open>i\<close>.\<close>

definition setStatus :: "AllocationOptimizer \<Rightarrow> nat \<Rightarrow> status \<Rightarrow> AllocationOptimizer" where
  "setStatus s i st =
     s\<lparr>roadmapItems := (roadmapItems s)[i := (roadmapItems s ! i)\<lparr>allocationStatus := Some st\<rparr>]\<rparr>"

definition allocateItem :: "AllocationOptimizer \<Rightarrow> nat \<Rightarrow> AllocationOptimizer" where
  "allocateItem s i =
     (let requiredCapacity = getRequiredCapacity (roadmapItems s ! i);
          potentialAllocations =
            array_sort (\<lambda>a b. jsub (snd b) (snd a))
              (findPotentialAllocations s (roadmapItems s ! i));
          (remainingCapacity, s') = allocateLoop i potentialAllocations requiredCapacity s
      in setStatus s' i
           (getItemStatus (roadmapItems s' ! i) (requiredCapacity - remainingCapacity)))"

text \<open>The reset at the start of \<open>optimize\<close>.\<close>

definition reset :: "AllocationOptimizer \<Rightarrow> AllocationOptimizer" where
  "reset s =
     s\<lparr>teamMembers := map (\<lambda>member. member\<lparr>allocatedCapacity := 0, assignments := []\<rparr>)
                         (teamMembers s),
       roadmapItems := map (\<lambda>item. item\<lparr>assignedMembers := []\<rparr>) (roadmapItems s),
       allocations := []\<rparr>"

text \<open>The items in the order of allocation: their positions, sorted by priority, highest first.\<close>

definition sortedItems :: "AllocationOptimizer \<Rightarrow> nat list" where
  "sortedItems s =
     array_sort (\<lambda>a b. Fin (priority (roadmapItems s ! b) - priority (roadmapItems s ! a)))
       [0 ..< length (roadmapItems s)]"

text \<open>The state of the optimizer when the loop of \<open>optimize\<close> over the items has ended.\<close>

definition allocateAll :: "AllocationOptimizer \<Rightarrow> AllocationOptimizer" where
  "allocateAll s = (let s0 = reset s in foldl allocateItem s0 (sortedItems s0))"

section \<open>Report and gap analysis (optimizer.js)\<close>

record Summary =
  totalTeamCapacity :: rat
  totalAllocatedCapacity :: rat
  utilizationRate :: jsnum
  itemsCount :: nat
  fullyStaffedCount :: nat
  totalAssignments :: nat

record ReportAllocation =
  ra_member :: string
  ra_item :: string
  ra_allocation :: rat
  ra_score :: jsnum

text \<open>An item of \<open>itemsByStatus\<close>: the item's fields with the two calculated values.\<close>

record EnhancedItem =
  enh_item :: RoadmapItem
  requiredCapacity :: rat
  totalAllocation :: rat

text \<open>
  A recommendation is a message built from a template; the value stands for the
  message, with the numbers the template prints.
\<close>

datatype recommendation =
    NoStaffing nat
  | MissingFTE "(string \<times> rat) list"
  | UnderStaffedItems nat
  | AvailableCapacity nat
  | OverAllocated nat
  | WellBalanced

record Report =
  summary :: Summary
  r_allocations :: "ReportAllocation list"
  r_teamMembers :: "TeamMember list"
  r_roadmapItems :: "RoadmapItem list"
  itemsByStatus :: "status \<Rightarrow> EnhancedItem list"
  underUtilized :: "TeamMember list"
  overUtilized :: "TeamMember list"
  recommendations :: "recommendation list"

definition getAvailableCapacityForSkills :: "AllocationOptimizer \<Rightarrow> string list \<Rightarrow> rat" where
  "getAvailableCapacityForSkills s sks =
     foldl (\<lambda>totalCapacity member.
              if some sks (\<lambda>skill. some (skills member) (\<lambda>memberSkill.
                   str_includes (toLowerCase memberSkill) (toLowerCase skill) \<or>
                   str_includes (toLowerCase skill) (toLowerCase memberSkill)))
              then totalCapacity + getAvailableCapacity member
              else totalCapacity)
       0 (teamMembers s)"

text \<open>
  The keys of the skill table of \<open>analyzeMissingFTETypes\<close>; its four skill lists are
  those of \<open>platformSkills\<close>.
\<close>

fun fteType :: "platform \<Rightarrow> string" where
  "fteType Ios = ''iOS Developer''"
| "fteType Android = ''Android Developer''"
| "fteType Web = ''Web Developer''"
| "fteType Backend = ''Backend Developer''"

text \<open>
  \<open>missingTypes[t] = (missingTypes[t] || 0) + shortage\<close> on an object whose keys keep
  the order of their insertion.
\<close>

definition addShortage :: "(string \<times> rat) list \<Rightarrow> string \<Rightarrow> rat \<Rightarrow> (string \<times> rat) list" where
  "addShortage missingTypes t shortage =
     (case map_of missingTypes t of
        None \<Rightarrow> missingTypes @ [(t, 0 + shortage)]
      | Some c \<Rightarrow> map (\<lambda>(k, v). if k = t then (k, c + shortage) else (k, v)) missingTypes)"

definition missingStep ::
  "AllocationOptimizer \<Rightarrow> EffortBreakdown \<Rightarrow> (string \<times> rat) list \<Rightarrow> platform \<Rightarrow> (string \<times> rat) list" where
  "missingStep s e missingTypes pf =
     (if 0 < effort_of e pf then
        (let neededFTE = effort_of e pf / 13;
             availableCapacity = getAvailableCapacityForSkills s (platformSkills pf);
             shortage = max 0 (neededFTE - availableCapacity)
         in if 0 < shortage then addShortage missingTypes (fteType pf) shortage
            else missingTypes)
      else missingTypes)"

definition analyzeMissingFTETypes :: "AllocationOptimizer \<Rightarrow> RoadmapItem list \<Rightarrow> (string \<times> rat) list" where
  "analyzeMissingFTETypes s unstaffedItems =
     foldl (\<lambda>missingTypes item.
              case effortBreakdown item of
                Some e \<Rightarrow> foldl (missingStep s e) missingTypes [Ios, Android, Web, Backend]
              | None \<Rightarrow> missingTypes)
       [] unstaffedItems"

definition generateRecommendations ::
  "AllocationOptimizer \<Rightarrow> (status \<Rightarrow> RoadmapItem list) \<Rightarrow> TeamMember list \<Rightarrow> TeamMember list
     \<Rightarrow> recommendation list" where
  "generateRecommendations s byStatus underUtil overUtil =
     (let r1 = (if 0 < length (byStatus NotStaffed) then
                  (let missingFTETypes = analyzeMissingFTETypes s (byStatus NotStaffed)
                   in [NoStaffing (length (byStatus NotStaffed))] @
                      (if 0 < length missingFTETypes then [MissingFTE missingFTETypes] else []))
                else []);
          r2 = (if 0 < length (byStatus UnderStaffed)
                then r1 @ [UnderStaffedItems (length (byStatus UnderStaffed))] else r1);
          r3 = (if 0 < length underUtil then r2 @ [AvailableCapacity (length underUtil)] else r2);
          r4 = (if 0 < length overUtil then r3 @ [OverAllocated (length overUtil)] else r3)
      in if length r4 = 0 then r4 @ [WellBalanced] else r4)"

definition generateReport :: "AllocationOptimizer \<Rightarrow> Report" where
  "generateReport s =
     (let totalTeamCap = foldl (\<lambda>sum member. sum + capacity member) 0 (teamMembers s);
          totalAllocatedCap = foldl (\<lambda>sum member. sum + allocatedCapacity member) 0 (teamMembers s);
          utilRate = jmul (jdiv totalAllocatedCap totalTeamCap) (Fin 100);
          byStatus = (\<lambda>st. filter (\<lambda>item. allocationStatus item = Some st) (roadmapItems s));
          underUtil = filter (\<lambda>member.
                    jlt (jdiv (allocatedCapacity member) (capacity member)) (Fin (7 / 10)))
                    (teamMembers s);
          overUtil = filter (\<lambda>member.
                    jgt (jdiv (allocatedCapacity member) (capacity member)) (Fin (95 / 100)))
                    (teamMembers s);
          enhancedItemsByStatus = (\<lambda>st. map (\<lambda>item.
                    \<lparr>enh_item = item, requiredCapacity = getRequiredCapacity item,
                     totalAllocation = getTotalAllocation item\<rparr>) (byStatus st))
      in \<lparr>summary =
            \<lparr>totalTeamCapacity = of_int (Math_round (totalTeamCap * 100)) / 100,
             totalAllocatedCapacity = of_int (Math_round (totalAllocatedCap * 100)) / 100,
             utilizationRate = jround utilRate,
             itemsCount = length (roadmapItems s),
             fullyStaffedCount = length (byStatus FullyStaffed),
             totalAssignments = length (allocations s)\<rparr>,
          r_allocations = map (\<lambda>a.
             \<lparr>ra_member = name (teamMembers s ! al_member a),
              ra_item = item_name (roadmapItems s ! al_item a),
              ra_allocation = allocation a, ra_score = score a\<rparr>) (allocations s),
          r_teamMembers = teamMembers s,
          r_roadmapItems = roadmapItems s,
          itemsByStatus = enhancedItemsByStatus,
          underUtilized = underUtil,
          overUtilized = overUtil,
          recommendations = generateRecommendations s byStatus underUtil overUtil\<rparr>)"

text \<open>
  \<open>optimize\<close> mutates the optimizer and the entities and returns the report: the model
  returns the state with the report.
\<close>

definition optimize :: "AllocationOptimizer \<Rightarrow> AllocationOptimizer \<times> Report" where
  "optimize s = (let s' = allocateAll s in (s', generateReport s'))"

section \<open>Auxiliary definitions\<close>

definition isFinite :: "jsnum \<Rightarrow> bool" where
  "isFinite x = (case x of Fin _ \<Rightarrow> True | _ \<Rightarrow> False)"

text \<open>The value of \<open>score\<close> in \<open>calculateScore\<close> when the level stage begins.\<close>

definition scoreBeforeLevel :: "TeamMember \<Rightarrow> RoadmapItem \<Rightarrow> jsnum" where
  "scoreBeforeLevel m it =
     (let score0 = Fin 0;
          skillMatches = length (filter (hasSkill m) (requiredSkills it));
          skillScore = of_nat skillMatches / of_nat (max 1 (length (requiredSkills it)));
          score1 = jadd score0 (Fin (skillScore * 35));
          score2 = (case effortBreakdown it of
                      Some e \<Rightarrow> jadd score1 (calculatePlatformBonus m e)
                    | None \<Rightarrow> score1);
          score3 = (if hasInterest m (domain it) then jadd score2 (Fin 25) else score2);
          careerMatches = length (filter (hasCareerGoal m) (careerOpportunities it))
      in if 0 < careerMatches then jadd score3 (Fin 20) else score3)"

text \<open>
  What the reset of \<open>optimize\<close> leaves of a member and of an item, with the item's status
  cleared as well: the fields the engine does not own.
\<close>

definition resetMember :: "TeamMember \<Rightarrow> TeamMember" where
  "resetMember m = m\<lparr>allocatedCapacity := 0, assignments := []\<rparr>"

definition clearItem :: "RoadmapItem \<Rightarrow> RoadmapItem" where
  "clearItem it = it\<lparr>assignedMembers := [], allocationStatus := None\<rparr>"

definition clearStatus :: "RoadmapItem \<Rightarrow> RoadmapItem" where
  "clearStatus it = it\<lparr>allocationStatus := None\<rparr>"

text \<open>A run keeps the fields the engine does not own.\<close>

definition frame :: "AllocationOptimizer \<Rightarrow> AllocationOptimizer \<Rightarrow> bool" where
  "frame s0 s \<longleftrightarrow>
     map resetMember (teamMembers s) = map resetMember (teamMembers s0) \<and>
     map clearItem (roadmapItems s) = map clearItem (roadmapItems s0)"

text \<open>
  Two states that agree up to the statuses of their items, and agree on the items at the
  positions in \<open>D\<close>.
\<close>

definition eqv :: "nat set \<Rightarrow> AllocationOptimizer \<Rightarrow> AllocationOptimizer \<Rightarrow> bool" where
  "eqv D s t \<longleftrightarrow>
     teamMembers s = teamMembers t \<and> allocations s = allocations t \<and>
     length (roadmapItems s) = length (roadmapItems t) \<and>
     (\<forall>j < length (roadmapItems s).
        clearStatus (roadmapItems s ! j) = clearStatus (roadmapItems t ! j) \<and>
        (j \<in> D \<longrightarrow> roadmapItems s ! j = roadmapItems t ! j))"


text \<open>Item \<open>j\<close> has a status.\<close>

definition labelled :: "nat \<Rightarrow> AllocationOptimizer \<Rightarrow> bool" where
  "labelled j s \<longleftrightarrow> j < length (roadmapItems s) \<and> allocationStatus (roadmapItems s ! j) \<noteq> None"

text \<open>Item \<open>i\<close> requires no capacity and has no allocation.\<close>

definition unallocated :: "nat \<Rightarrow> AllocationOptimizer \<Rightarrow> bool" where
  "unallocated i s \<longleftrightarrow>
     i < length (roadmapItems s) \<and> getRequiredCapacity (roadmapItems s ! i) = 0 \<and>
     assignedMembers (roadmapItems s ! i) = [] \<and> i \<notin> al_item ` set (allocations s)"

subsection \<open>Concrete inputs\<close>





definition partTimer :: TeamMember where
  "partTimer = new_TeamMember ''Bob'' ''Mid'' [''Python''] (8 / 10) [''Backend''] []"

definition hugeItem :: RoadmapItem where
  "hugeItem = new_RoadmapItem ''Huge Project'' ''Massive'' 5 5 [] ''General'' ''Junior'' []"

definition zeroSizeItem :: RoadmapItem where
  "zeroSizeItem = new_RoadmapItem ''Nothing'' ''no work'' 0 1 [] ''General'' ''Junior'' []"



definition zeroCapMember :: TeamMember where
  "zeroCapMember = new_TeamMember ''Zero Cap'' ''Mid'' [''JavaScript''] 0 [''Frontend''] []"

definition partTimeRun :: AllocationOptimizer where
  "partTimeRun = new_AllocationOptimizer [partTimer] [hugeItem]"



definition zeroCapRun :: AllocationOptimizer where
  "zeroCapRun = new_AllocationOptimizer [zeroCapMember, partTimer] [hugeItem]"

definition zeroSizeRun :: AllocationOptimizer where
  "zeroSizeRun = new_AllocationOptimizer [partTimer] [zeroSizeItem]"

definition twoItemRun :: AllocationOptimizer where
  "twoItemRun = new_AllocationOptimizer [partTimer] [zeroSizeItem, hugeItem]"

section \<open>Scoring: the level penalty\<close>

lemma calculateScore_level:
  "calculateScore m it a =
     jadd (jadd (if getLevelWeight m \<ge> levelWeight (minLevel it) then
                   (if complexity it \<ge> 4 \<and> getLevelWeight m \<ge> 13 / 10
                    then jadd (jadd (scoreBeforeLevel m it) (Fin 10)) (Fin 10)
                    else jadd (scoreBeforeLevel m it) (Fin 10))
                 else jsub (scoreBeforeLevel m it) (Fin 20))
             (Fin (priority it * 5)))
       (Fin (a * 15))"
  unfolding calculateScore_def scoreBeforeLevel_def Let_def by (rule refl)










text \<open>
  The score is finite whenever the effort breakdown of the item, if it has one, has a
  total other than zero: the hypothesis of the amended C7 holds for every such item.
\<close>

lemma isFinite_jadd_Fin [simp]: "isFinite (jadd x (Fin b)) = isFinite x"
  by (cases x) (simp_all add: isFinite_def)

lemma isFinite_jsub_Fin [simp]: "isFinite (jsub x (Fin b)) = isFinite x"
  by (cases x) (simp_all add: isFinite_def jsub_def)

lemma isFinite_Fin [simp]: "isFinite (Fin a)"
  by (simp add: isFinite_def)

lemma isFinite_jadd: "isFinite x \<Longrightarrow> isFinite y \<Longrightarrow> isFinite (jadd x y)"
  by (cases x; cases y) (simp_all add: isFinite_def)

lemma isFinite_platformStep:
  "effort_total e \<noteq> 0 \<Longrightarrow> isFinite b \<Longrightarrow> isFinite (platformStep m e b pf)"
  by (simp add: platformStep_def Let_def jdiv_def)

lemma isFinite_calculatePlatformBonus:
  "effort_total e \<noteq> 0 \<Longrightarrow> isFinite (calculatePlatformBonus m e)"
  by (simp add: calculatePlatformBonus_def Let_def isFinite_platformStep)

lemma isFinite_scoreBeforeLevel:
  assumes "\<And>e. effortBreakdown it = Some e \<Longrightarrow> effort_total e \<noteq> 0"
  shows "isFinite (scoreBeforeLevel m it)"
proof (cases "effortBreakdown it")
  case None
  then show ?thesis by (simp add: scoreBeforeLevel_def Let_def)
next
  case (Some e)
  then have "isFinite (calculatePlatformBonus m e)"
    using assms by (simp add: isFinite_calculatePlatformBonus)
  then show ?thesis
    using Some by (simp add: scoreBeforeLevel_def Let_def isFinite_jadd)
qed

lemma isFinite_calculateScore:
  assumes "\<And>e. effortBreakdown it = Some e \<Longrightarrow> effort_total e \<noteq> 0"
  shows "isFinite (calculateScore m it a)"
  using isFinite_scoreBeforeLevel[of it m, OF assms]
  by (simp add: calculateScore_level)

section \<open>The engine: basic facts and invariants\<close>

lemma teamMembers_commit:
  "teamMembers (commit s p i a) =
     (teamMembers s)[p := (teamMembers s ! p)
        \<lparr>allocatedCapacity := allocatedCapacity (teamMembers s ! p) + a,
         assignments := assignments (teamMembers s ! p) @
           [\<lparr>ma_item = item_name (roadmapItems s ! i), ma_allocation = a,
             ma_percentage = Math_round (a * 100)\<rparr>]\<rparr>]"
  by (simp add: commit_def Let_def)

lemma roadmapItems_commit:
  "roadmapItems (commit s p i a) =
     (roadmapItems s)[i := (roadmapItems s ! i)
        \<lparr>assignedMembers := assignedMembers (roadmapItems s ! i) @
           [\<lparr>ia_member = name (teamMembers s ! p), ia_allocation = a,
             ia_percentage = Math_round (a * 100)\<rparr>]\<rparr>]"
  by (simp add: commit_def Let_def)

lemma allocations_commit:
  "allocations (commit s p i a) =
     allocations s @ [new_Allocation p (teamMembers s ! p) i (roadmapItems s ! i) a]"
  by (simp add: commit_def Let_def)

lemma length_commit [simp]:
  "length (teamMembers (commit s p i a)) = length (teamMembers s)"
  "length (roadmapItems (commit s p i a)) = length (roadmapItems s)"
  by (simp_all add: teamMembers_commit roadmapItems_commit)

lemma setStatus_simps [simp]:
  "teamMembers (setStatus s i st) = teamMembers s"
  "allocations (setStatus s i st) = allocations s"
  "length (roadmapItems (setStatus s i st)) = length (roadmapItems s)"
  by (simp_all add: setStatus_def)

text \<open>An invariant of the loop over the candidates.\<close>

lemma allocateLoop_invariant:
  assumes "P s"
    and "\<forall>p \<in> fst ` set ps. p < length (teamMembers s)"
    and step: "\<And>s a p. P s \<Longrightarrow> p < length (teamMembers s) \<Longrightarrow> 1 / 10 < a \<Longrightarrow> a \<le> 1 / 2
            \<Longrightarrow> a \<le> getAvailableCapacity (teamMembers s ! p) \<Longrightarrow> P (commit s p i a)"
  shows "P (snd (allocateLoop i ps r s))"
  using assms(1,2)
proof (induction ps arbitrary: r s)
  case Nil
  then show ?case by simp
next
  case (Cons potential rest)
  let ?p = "fst potential"
  let ?av = "getAvailableCapacity (teamMembers s ! ?p)"
  let ?a = "min r (min ?av (1 / 2))"
  have p: "?p < length (teamMembers s)" using Cons.prems(2) by simp
  have rest: "\<forall>p \<in> fst ` set rest. p < length (teamMembers s)" using Cons.prems(2) by simp
  show ?case
  proof (cases "r \<le> 0 \<or> ?av \<le> 0 \<or> \<not> 1 / 10 < ?a")
    case True
    then have "allocateLoop i (potential # rest) r s = (r, s) \<or>
        allocateLoop i (potential # rest) r s = allocateLoop i rest r s"
      by (auto simp: Let_def)
    then show ?thesis using Cons.IH[OF Cons.prems(1) rest] Cons.prems(1)
      by auto
  next
    case False
    then have "\<not> r \<le> 0" "\<not> ?av \<le> 0" "1 / 10 < ?a"
      by blast+
    then have eq: "allocateLoop i (potential # rest) r s =
        allocateLoop i rest (r - ?a) (commit s ?p i ?a)"
      by (simp only: allocateLoop.simps Let_def if_False if_True)
    from False have "P (commit s ?p i ?a)"
      using step[OF Cons.prems(1) p, of ?a] by simp
    moreover have "\<forall>p \<in> fst ` set rest. p < length (teamMembers (commit s ?p i ?a))"
      using rest by simp
    ultimately have "P (snd (allocateLoop i rest (r - ?a) (commit s ?p i ?a)))"
      by (rule Cons.IH)
    then show ?thesis unfolding eq .
  qed
qed

lemma set_insert_cmp [simp]: "set (insert_cmp cmp x ys) = insert x (set ys)"
  by (induction ys) auto

lemma set_array_sort [simp]: "set (array_sort cmp xs) = set xs"
  by (induction xs) (simp_all add: array_sort_def)

lemma length_insert_cmp [simp]: "length (insert_cmp cmp x ys) = Suc (length ys)"
  by (induction ys) auto

lemma length_array_sort [simp]: "length (array_sort cmp xs) = length xs"
  by (induction xs) (simp_all add: array_sort_def)

lemma findPotentialAllocations_bound:
  "p \<in> fst ` set (findPotentialAllocations s it) \<Longrightarrow> p < length (teamMembers s)"
  by (auto simp: findPotentialAllocations_def)

lemma allocateItem_invariant:
  assumes "P s"
    and step: "\<And>s a p. P s \<Longrightarrow> p < length (teamMembers s) \<Longrightarrow> 1 / 10 < a \<Longrightarrow> a \<le> 1 / 2
            \<Longrightarrow> a \<le> getAvailableCapacity (teamMembers s ! p) \<Longrightarrow> P (commit s p i a)"
    and status: "\<And>s st. P s \<Longrightarrow> P (setStatus s i st)"
  shows "P (allocateItem s i)"
proof -
  let ?ps = "array_sort (\<lambda>a b. jsub (snd b) (snd a)) (findPotentialAllocations s (roadmapItems s ! i))"
  have "\<forall>p \<in> fst ` set ?ps. p < length (teamMembers s)"
    using findPotentialAllocations_bound by auto
  with assms(1)
  have "P (snd (allocateLoop i ?ps (getRequiredCapacity (roadmapItems s ! i)) s))"
    by (rule allocateLoop_invariant) (rule step)
  then show ?thesis
    by (simp add: allocateItem_def Let_def split_beta status)
qed

lemma foldl_allocateItem_invariant:
  assumes "P s"
    and step: "\<And>s a p i. P s \<Longrightarrow> i \<in> set xs \<Longrightarrow> p < length (teamMembers s) \<Longrightarrow> 1 / 10 < a \<Longrightarrow> a \<le> 1 / 2
            \<Longrightarrow> a \<le> getAvailableCapacity (teamMembers s ! p) \<Longrightarrow> P (commit s p i a)"
    and status: "\<And>s st i. P s \<Longrightarrow> i \<in> set xs \<Longrightarrow> P (setStatus s i st)"
  shows "P (foldl allocateItem s xs)"
  using assms
proof (induction xs arbitrary: s)
  case Nil
  then show ?case by simp
next
  case (Cons i xs)
  have "P (allocateItem s i)"
  proof (rule allocateItem_invariant[of P, OF Cons.prems(1)])
    show "P (commit s' p i a)"
      if "P s'" "p < length (teamMembers s')" "1 / 10 < a" "a \<le> 1 / 2"
        "a \<le> getAvailableCapacity (teamMembers s' ! p)" for s' a p
      using that by (intro Cons.prems(2)) simp_all
    show "P (setStatus s' i st)" if "P s'" for s' st
      using that by (intro Cons.prems(3)) simp_all
  qed
  moreover have "P (commit s' p j a)"
      if "P s'" "j \<in> set xs" "p < length (teamMembers s')" "1 / 10 < a" "a \<le> 1 / 2"
        "a \<le> getAvailableCapacity (teamMembers s' ! p)" for s' a p j
      using that by (intro Cons.prems(2)) simp_all
  moreover have "P (setStatus s' j st)" if "P s'" "j \<in> set xs" for s' st j
      using that by (intro Cons.prems(3)) simp_all
  ultimately have "P (foldl allocateItem (allocateItem s i) xs)"
    by (rule Cons.IH)
  then show ?case by simp
qed

lemma length_reset [simp]:
  "length (teamMembers (reset s)) = length (teamMembers s)"
  "length (roadmapItems (reset s)) = length (roadmapItems s)"
  by (simp_all add: reset_def)

lemma set_sortedItems [simp]: "set (sortedItems s) = {0 ..< length (roadmapItems s)}"
  by (simp add: sortedItems_def)

text \<open>An invariant of the whole run.\<close>

lemma allocateAll_invariant:
  assumes "P (reset s)"
    and step: "\<And>s' a p i. P s' \<Longrightarrow> i < length (roadmapItems s) \<Longrightarrow> p < length (teamMembers s') \<Longrightarrow> 1 / 10 < a \<Longrightarrow> a \<le> 1 / 2
            \<Longrightarrow> a \<le> getAvailableCapacity (teamMembers s' ! p) \<Longrightarrow> P (commit s' p i a)"
    and status: "\<And>s' st i. P s' \<Longrightarrow> i < length (roadmapItems s) \<Longrightarrow> P (setStatus s' i st)"
  shows "P (allocateAll s)"
  unfolding allocateAll_def Let_def
proof (rule foldl_allocateItem_invariant[of P, OF assms(1)])
  show "P (commit s' p i a)"
    if "P s'" "i \<in> set (sortedItems (reset s))" "p < length (teamMembers s')" "1 / 10 < a"
      "a \<le> 1 / 2" "a \<le> getAvailableCapacity (teamMembers s' ! p)" for s' a p i
    using that by (intro step) simp_all
  show "P (setStatus s' i st)" if "P s'" "i \<in> set (sortedItems (reset s))" for s' st i
    using that by (intro status) simp_all
qed

section \<open>The report of a run\<close>

lemma optimize_fst: "fst (optimize s) = allocateAll s"
  by (simp add: optimize_def Let_def)

lemma optimize_snd: "snd (optimize s) = generateReport (allocateAll s)"
  by (simp add: optimize_def Let_def)

lemma r_allocations_generateReport:
  "map ra_allocation (r_allocations (generateReport s)) = map allocation (allocations s)"
  by (simp add: generateReport_def Let_def comp_def)


lemma r_roadmapItems_generateReport [simp]: "r_roadmapItems (generateReport s) = roadmapItems s"
  by (simp add: generateReport_def Let_def)

lemma allocations_reset [simp]: "allocations (reset s) = []"
  by (simp add: reset_def)


lemma allocateLoop_Cons:
  "allocateLoop i (pot # rest) r s \<in>
     {(r, s), allocateLoop i rest r s,
      allocateLoop i rest
        (r - min r (min (getAvailableCapacity (teamMembers s ! fst pot)) (1 / 2)))
        (commit s (fst pot) i (min r (min (getAvailableCapacity (teamMembers s ! fst pot)) (1 / 2))))}"
  by (simp add: Let_def)

lemma length_allocateLoop [simp]:
  "length (roadmapItems (snd (allocateLoop i ps r s))) = length (roadmapItems s) \<and>
   length (teamMembers (snd (allocateLoop i ps r s))) = length (teamMembers s)"
proof (induction ps arbitrary: r s)
  case Nil
  then show ?case by simp
next
  case (Cons pot rest)
  show ?case
    using allocateLoop_Cons[of i pot rest r s] Cons.IH[of r s]
      Cons.IH[of "r - min r (min (getAvailableCapacity (teamMembers s ! fst pot)) (1 / 2))"
        "commit s (fst pot) i (min r (min (getAvailableCapacity (teamMembers s ! fst pot)) (1 / 2)))"]
    by auto
qed

lemma length_allocateItem [simp]:
  "length (roadmapItems (allocateItem s i)) = length (roadmapItems s)"
  "length (teamMembers (allocateItem s i)) = length (teamMembers s)"
  by (simp_all add: allocateItem_def Let_def split_beta)

lemma length_foldl_allocateItem [simp]:
  "length (roadmapItems (foldl allocateItem s xs)) = length (roadmapItems s)"
  "length (teamMembers (foldl allocateItem s xs)) = length (teamMembers s)"
  by (induction xs arbitrary: s) simp_all

lemma length_allocateAll [simp]:
  "length (roadmapItems (allocateAll s)) = length (roadmapItems s)"
  "length (teamMembers (allocateAll s)) = length (teamMembers s)"
  by (simp_all add: allocateAll_def Let_def)

section \<open>The committed allocations: minimum increment and cap\<close>

lemma allocation_bounds:
  "\<forall>a \<in> set (allocations (allocateAll s)). 1 / 10 < allocation a \<and> allocation a \<le> 1 / 2"
  by (rule allocateAll_invariant) (simp_all add: allocations_commit new_Allocation_def)

text \<open>
  C9: every committed allocation of a run of \<open>optimize\<close> has an amount strictly
  greater than \<open>0.1\<close>, in the optimizer's allocation list and in the list of the report.
\<close>

theorem minimum_increment:
  "(\<forall>a \<in> set (allocations (fst (optimize s))). 1 / 10 < allocation a) \<and>
   (\<forall>a \<in> set (r_allocations (snd (optimize s))). 1 / 10 < ra_allocation a)"
proof -
  have 1: "\<forall>a \<in> set (allocations (allocateAll s)). 1 / 10 < allocation a"
    using allocation_bounds[of s] by blast
  have "\<forall>x \<in> set (map ra_allocation (r_allocations (generateReport (allocateAll s)))). 1 / 10 < x"
    unfolding r_allocations_generateReport using 1 by simp
  then have 2: "\<forall>a \<in> set (r_allocations (generateReport (allocateAll s))). 1 / 10 < ra_allocation a"
    by simp
  show ?thesis unfolding optimize_fst optimize_snd using 1 2 by blast
qed

text \<open>
  C9 at a run with one part-time member and one large item: the allocation it commits is
  greater than \<open>0.1\<close>.
\<close>

theorem minimum_increment_witness:
  "1 / 10 < allocation (hd (allocations (fst (optimize partTimeRun)))) \<and>
   1 / 10 < ra_allocation (hd (r_allocations (snd (optimize partTimeRun))))"
proof -
  have "allocations (fst (optimize partTimeRun)) \<noteq> []" by code_simp
  then have 1: "hd (allocations (fst (optimize partTimeRun))) \<in> set (allocations (fst (optimize partTimeRun)))"
    by simp
  have "r_allocations (snd (optimize partTimeRun)) \<noteq> []" by code_simp
  then have 2: "hd (r_allocations (snd (optimize partTimeRun))) \<in> set (r_allocations (snd (optimize partTimeRun)))"
    by simp
  show ?thesis using minimum_increment[of partTimeRun] 1 2 by blast
qed




section \<open>The capacity invariant\<close>

lemma in_set_updateE:
  assumes "x \<in> set (xs[p := y])"
  obtains "x = y" | "x \<in> set xs"
  using assms set_update_subset_insert[of xs p y] by auto




section \<open>Members of capacity zero\<close>

lemma zero_capacity_allocateAll:
  "\<forall>m \<in> set (teamMembers (allocateAll s)). capacity m = 0 \<longrightarrow> allocatedCapacity m = 0"
proof (rule allocateAll_invariant)
  show "\<forall>m \<in> set (teamMembers (reset s)). capacity m = 0 \<longrightarrow> allocatedCapacity m = 0"
    by (auto simp: reset_def)
next
  fix s' :: AllocationOptimizer and a :: rat and p i :: nat
  assume inv: "\<forall>m \<in> set (teamMembers s'). capacity m = 0 \<longrightarrow> allocatedCapacity m = 0"
    and p: "p < length (teamMembers s')" and a: "1 / 10 < a"
    and av: "a \<le> getAvailableCapacity (teamMembers s' ! p)"
  let ?m = "teamMembers s' ! p"
  have m: "capacity ?m = 0 \<longrightarrow> allocatedCapacity ?m = 0" using inv p by simp
  have "a \<le> capacity ?m - allocatedCapacity ?m"
    using a av by (simp add: getAvailableCapacity_def max_def split: if_splits)
  with m a have "capacity ?m \<noteq> 0" by auto
  then show "\<forall>m \<in> set (teamMembers (commit s' p i a)). capacity m = 0 \<longrightarrow> allocatedCapacity m = 0"
    using inv by (auto simp: teamMembers_commit elim!: in_set_updateE)
next
  fix s' :: AllocationOptimizer and st i
  assume "\<forall>m \<in> set (teamMembers s'). capacity m = 0 \<longrightarrow> allocatedCapacity m = 0"
  then show "\<forall>m \<in> set (teamMembers (setStatus s' i st)). capacity m = 0 \<longrightarrow> allocatedCapacity m = 0"
    by simp
qed

text \<open>
  C6: after \<open>optimize\<close>, a member of capacity \<open>0\<close> is neither in \<open>underUtilized\<close>
  nor in \<open>overUtilized\<close>. Such a member is never allocated, its ratio is
  \<open>0 / 0 = NaN\<close>, and both comparisons with \<open>NaN\<close> are false.
\<close>

theorem zero_capacity_excluded:
  "\<forall>m \<in> set (r_teamMembers (snd (optimize s))). capacity m = 0 \<longrightarrow>
     m \<notin> set (underUtilized (snd (optimize s))) \<and> m \<notin> set (overUtilized (snd (optimize s)))"
  unfolding optimize_snd
  using zero_capacity_allocateAll[of s]
  by (auto simp: generateReport_def Let_def jdiv_def jgt_def)

text \<open>
  C6 at a run whose first member has capacity \<open>0\<close>.
\<close>

theorem zero_capacity_excluded_witness:
  "capacity (hd (r_teamMembers (snd (optimize zeroCapRun)))) = 0 \<and>
   hd (r_teamMembers (snd (optimize zeroCapRun))) \<notin> set (underUtilized (snd (optimize zeroCapRun))) \<and>
   hd (r_teamMembers (snd (optimize zeroCapRun))) \<notin> set (overUtilized (snd (optimize zeroCapRun)))"
proof -
  have c: "capacity (hd (r_teamMembers (snd (optimize zeroCapRun)))) = 0" by code_simp
  have "r_teamMembers (snd (optimize zeroCapRun)) \<noteq> []" by code_simp
  then have "hd (r_teamMembers (snd (optimize zeroCapRun))) \<in> set (r_teamMembers (snd (optimize zeroCapRun)))"
    by simp
  then show ?thesis using zero_capacity_excluded[of zeroCapRun] c by blast
qed

section \<open>Conservation of the bookkeeping\<close>



lemma getTotalAllocation_status [simp]:
  "getTotalAllocation (it\<lparr>allocationStatus := x\<rparr>) = getTotalAllocation it"
  by (simp add: getTotalAllocation_def)






section \<open>The status partition\<close>

lemma labelled_commit: "labelled j s \<Longrightarrow> labelled j (commit s p i a)"
  by (cases "i = j") (simp_all add: labelled_def roadmapItems_commit)

lemma labelled_setStatus: "labelled j s \<Longrightarrow> labelled j (setStatus s i st)"
  by (cases "i = j") (simp_all add: labelled_def setStatus_def)

lemma labelled_allocateItem_other: "labelled j s \<Longrightarrow> labelled j (allocateItem s i)"
  by (rule allocateItem_invariant) (simp_all add: labelled_commit labelled_setStatus)

lemma labelled_allocateItem_same:
  "i < length (roadmapItems s) \<Longrightarrow> labelled i (allocateItem s i)"
  by (simp add: labelled_def allocateItem_def Let_def split_beta setStatus_def)

lemma labelled_foldl_other: "labelled j s \<Longrightarrow> labelled j (foldl allocateItem s xs)"
  by (induction xs arbitrary: s) (simp_all add: labelled_allocateItem_other)

lemma labelled_foldl:
  "j \<in> set xs \<Longrightarrow> j < length (roadmapItems s) \<Longrightarrow> labelled j (foldl allocateItem s xs)"
proof (induction xs arbitrary: s)
  case Nil
  then show ?case by simp
next
  case (Cons i xs)
  show ?case
  proof (cases "j = i")
    case True
    then have "labelled j (allocateItem s i)"
      using Cons.prems(2) by (simp add: labelled_allocateItem_same)
    then show ?thesis by (simp add: labelled_foldl_other)
  next
    case False
    then have "j \<in> set xs" using Cons.prems(1) by simp
    moreover have "j < length (roadmapItems (allocateItem s i))"
      using Cons.prems(2) by simp
    ultimately show ?thesis using Cons.IH by simp
  qed
qed

lemma labelled_allocateAll:
  "j < length (roadmapItems s) \<Longrightarrow> labelled j (allocateAll s)"
  unfolding allocateAll_def Let_def
  by (rule labelled_foldl) simp_all

lemma all_labelled:
  "\<forall>it \<in> set (roadmapItems (allocateAll s)). \<exists>st. allocationStatus it = Some st"
proof
  fix it assume "it \<in> set (roadmapItems (allocateAll s))"
  then obtain j where j: "j < length (roadmapItems (allocateAll s))"
    and it: "it = roadmapItems (allocateAll s) ! j"
    by (auto simp: in_set_conv_nth)
  from j have "labelled j (allocateAll s)" by (simp add: labelled_allocateAll)
  then show "\<exists>st. allocationStatus it = Some st"
    by (simp add: labelled_def it)
qed

lemma bucket_sizes:
  "\<forall>it \<in> set xs. \<exists>st. allocationStatus it = Some st \<Longrightarrow>
     length (filter (\<lambda>it. allocationStatus it = Some FullyStaffed) xs) +
     length (filter (\<lambda>it. allocationStatus it = Some AdequatelyStaffed) xs) +
     length (filter (\<lambda>it. allocationStatus it = Some UnderStaffed) xs) +
     length (filter (\<lambda>it. allocationStatus it = Some NotStaffed) xs) = length xs"
proof (induction xs)
  case Nil
  then show ?case by simp
next
  case (Cons x xs)
  then obtain st where "allocationStatus x = Some st" by auto
  then show ?case using Cons by (cases st) simp_all
qed

lemma itemsByStatus_generateReport:
  "map enh_item (itemsByStatus (generateReport s) st) =
     filter (\<lambda>it. allocationStatus it = Some st) (roadmapItems s)"
  by (simp add: generateReport_def Let_def comp_def)

text \<open>
  C8: after \<open>optimize\<close>, each bucket of \<open>itemsByStatus\<close> holds the items with its
  status, in their order; every item has one of the four statuses; and the sizes of the
  four buckets add up to the number of items.
\<close>

theorem status_partition:
  "(\<forall>st. map enh_item (itemsByStatus (snd (optimize s)) st) =
      filter (\<lambda>it. allocationStatus it = Some st) (r_roadmapItems (snd (optimize s)))) \<and>
   (\<forall>it \<in> set (r_roadmapItems (snd (optimize s))). \<exists>st. allocationStatus it = Some st) \<and>
   length (itemsByStatus (snd (optimize s)) FullyStaffed) +
   length (itemsByStatus (snd (optimize s)) AdequatelyStaffed) +
   length (itemsByStatus (snd (optimize s)) UnderStaffed) +
   length (itemsByStatus (snd (optimize s)) NotStaffed) = length (roadmapItems s)"
proof -
  let ?r = "generateReport (allocateAll s)"
  have len: "length (itemsByStatus ?r st) =
      length (filter (\<lambda>it. allocationStatus it = Some st) (roadmapItems (allocateAll s)))" for st
    using arg_cong[OF itemsByStatus_generateReport[of "allocateAll s" st], of length] by simp
  have "length (itemsByStatus ?r FullyStaffed) + length (itemsByStatus ?r AdequatelyStaffed) +
      length (itemsByStatus ?r UnderStaffed) + length (itemsByStatus ?r NotStaffed) =
      length (roadmapItems (allocateAll s))"
    unfolding len by (rule bucket_sizes) (rule all_labelled)
  then show ?thesis
    unfolding optimize_snd
    using all_labelled[of s] by (simp add: itemsByStatus_generateReport)
qed

text \<open>
  C8 at a run with two items: the sizes of the four buckets add up to \<open>2\<close>.
\<close>

theorem status_partition_witness:
  "length (itemsByStatus (snd (optimize twoItemRun)) FullyStaffed) +
   length (itemsByStatus (snd (optimize twoItemRun)) AdequatelyStaffed) +
   length (itemsByStatus (snd (optimize twoItemRun)) UnderStaffed) +
   length (itemsByStatus (snd (optimize twoItemRun)) NotStaffed) = 2"
proof -
  have "length (roadmapItems twoItemRun) = 2"
    by (simp add: twoItemRun_def new_AllocationOptimizer_def)
  then show ?thesis using status_partition[of twoItemRun] by simp
qed

section \<open>Idempotence\<close>

lemma map_update_same: "f y = f (xs ! p) \<Longrightarrow> map f (xs[p := y]) = map f xs"
  by (induction xs arbitrary: p) (auto split: nat.splits)

lemma frame_reset: "frame s (reset s)"
  by (simp add: frame_def reset_def resetMember_def clearItem_def comp_def)

lemma frame_commit: "frame s0 s \<Longrightarrow> frame s0 (commit s p i a)"
  by (simp add: frame_def teamMembers_commit roadmapItems_commit map_update_same
      resetMember_def clearItem_def)

lemma frame_setStatus: "frame s0 s \<Longrightarrow> frame s0 (setStatus s i st)"
  by (simp add: frame_def setStatus_def map_update_same clearItem_def)

lemma frame_allocateAll: "frame s (allocateAll s)"
  by (rule allocateAll_invariant) (simp_all add: frame_reset frame_commit frame_setStatus)

lemma clearStatus_eqD:
  assumes "clearStatus a = clearStatus b"
  shows "b = a\<lparr>allocationStatus := allocationStatus b\<rparr>"
  using assms by (cases a, cases b) (simp add: clearStatus_def)

lemma getRequiredCapacity_status [simp]:
  "getRequiredCapacity (it\<lparr>allocationStatus := x\<rparr>) = getRequiredCapacity it"
  by (simp add: getRequiredCapacity_def Let_def cong: if_cong option.case_cong)

lemma calculateScore_status [simp]:
  "calculateScore m (it\<lparr>allocationStatus := x\<rparr>) a = calculateScore m it a"
  by (simp add: calculateScore_def Let_def cong: if_cong option.case_cong)

lemma getItemStatus_status [simp]:
  "getItemStatus (it\<lparr>allocationStatus := x\<rparr>) a = getItemStatus it a"
  by (simp add: getItemStatus_def Let_def cong: if_cong)

lemma clearStatus_cong:
  assumes "clearStatus a = clearStatus b"
  shows "getRequiredCapacity a = getRequiredCapacity b"
    and "calculateScore m a x = calculateScore m b x"
    and "getItemStatus a x = getItemStatus b x"
    and "item_name a = item_name b"
    and "assignedMembers a = assignedMembers b"
    and "priority a = priority b"
    and "a\<lparr>allocationStatus := y\<rparr> = b\<lparr>allocationStatus := y\<rparr>"
    and "clearStatus (a\<lparr>assignedMembers := z\<rparr>) = clearStatus (b\<lparr>assignedMembers := z\<rparr>)"
  by (subst clearStatus_eqD[OF assms], simp add: clearStatus_def)+

lemma eqv_commit:
  assumes "eqv D s t" "i < length (roadmapItems s)"
  shows "eqv D (commit s p i a) (commit t p i a)"
proof -
  from assms have c: "clearStatus (roadmapItems s ! i) = clearStatus (roadmapItems t ! i)"
    and m: "teamMembers s = teamMembers t" and al: "allocations s = allocations t"
    and len: "length (roadmapItems s) = length (roadmapItems t)"
    by (simp_all add: eqv_def)
  have 1: "teamMembers (commit s p i a) = teamMembers (commit t p i a)"
    by (simp add: teamMembers_commit m clearStatus_cong(4)[OF c])
  have 2: "allocations (commit s p i a) = allocations (commit t p i a)"
    by (simp add: allocations_commit m al new_Allocation_def clearStatus_cong(2)[OF c])
  have 3: "clearStatus (roadmapItems (commit s p i a) ! j) = clearStatus (roadmapItems (commit t p i a) ! j) \<and>
        (j \<in> D \<longrightarrow> roadmapItems (commit s p i a) ! j = roadmapItems (commit t p i a) ! j)"
    if "j < length (roadmapItems s)" for j
  proof (cases "j = i")
    case True
    have "j \<in> D \<Longrightarrow> roadmapItems s ! i = roadmapItems t ! i"
      using assms True by (simp add: eqv_def)
    then show ?thesis
      using True that len m
      by (auto simp add: roadmapItems_commit clearStatus_cong(5)[OF c] clearStatus_cong(8)[OF c])
  next
    case False
    then show ?thesis using assms(1) that by (simp add: roadmapItems_commit eqv_def)
  qed
  show ?thesis
    unfolding eqv_def using 1 2 3 len by simp
qed

lemma allocateLoop_Cons_if:
  "allocateLoop i (pot # rest) r s =
     (if r \<le> 0 then (r, s)
      else if getAvailableCapacity (teamMembers s ! fst pot) \<le> 0 \<or>
              \<not> 1 / 10 < min r (min (getAvailableCapacity (teamMembers s ! fst pot)) (1 / 2))
      then allocateLoop i rest r s
      else allocateLoop i rest
             (r - min r (min (getAvailableCapacity (teamMembers s ! fst pot)) (1 / 2)))
             (commit s (fst pot) i
                (min r (min (getAvailableCapacity (teamMembers s ! fst pot)) (1 / 2)))))"
  unfolding allocateLoop.simps Let_def
  by (cases "r \<le> 0"; cases "getAvailableCapacity (teamMembers s ! fst pot) \<le> 0";
      cases "1 / 10 < min r (min (getAvailableCapacity (teamMembers s ! fst pot)) (1 / 2))";
      simp only: if_True if_False simp_thms)

lemma eqv_allocateLoop:
  assumes "eqv D s t" "i < length (roadmapItems s)"
  shows "fst (allocateLoop i ps r s) = fst (allocateLoop i ps r t) \<and>
         eqv D (snd (allocateLoop i ps r s)) (snd (allocateLoop i ps r t))"
  using assms
proof (induction ps arbitrary: r s t)
  case Nil
  then show ?case by simp
next
  case (Cons pot rest)
  have m: "teamMembers t = teamMembers s" using Cons.prems(1) by (simp add: eqv_def)
  let ?av = "getAvailableCapacity (teamMembers s ! fst pot)"
  let ?a = "min r (min ?av (1 / 2))"
  have c: "eqv D (commit s (fst pot) i ?a) (commit t (fst pot) i ?a)"
    using Cons.prems by (rule eqv_commit)
  have i': "i < length (roadmapItems (commit s (fst pot) i ?a))"
    using Cons.prems(2) by simp
  note ih1 = Cons.IH[OF Cons.prems, of r]
  note ih2 = Cons.IH[OF c i', of "r - ?a"]
  consider (brk) "r \<le> 0"
    | (skip) "\<not> r \<le> 0" "?av \<le> 0 \<or> \<not> 1 / 10 < ?a"
    | (com) "\<not> r \<le> 0" "\<not> (?av \<le> 0 \<or> \<not> 1 / 10 < ?a)"
    by blast
  then show ?case
  proof cases
    case brk
    then have "allocateLoop i (pot # rest) r s = (r, s)" "allocateLoop i (pot # rest) r t = (r, t)"
      by (simp_all only: allocateLoop_Cons_if if_True)
    then show ?thesis using Cons.prems(1) by simp
  next
    case skip
    then have "allocateLoop i (pot # rest) r s = allocateLoop i rest r s"
      "allocateLoop i (pot # rest) r t = allocateLoop i rest r t"
      by (simp_all only: allocateLoop_Cons_if m if_True if_False)
    then show ?thesis using ih1 by simp
  next
    case com
    then have "allocateLoop i (pot # rest) r s = allocateLoop i rest (r - ?a) (commit s (fst pot) i ?a)"
      "allocateLoop i (pot # rest) r t = allocateLoop i rest (r - ?a) (commit t (fst pot) i ?a)"
      by (simp_all only: allocateLoop_Cons_if m if_True if_False)
    then show ?thesis using ih2 by simp
  qed
qed

lemma findPotentialAllocations_eqv:
  assumes "teamMembers s = teamMembers t" "clearStatus a = clearStatus b"
  shows "findPotentialAllocations s a = findPotentialAllocations t b"
  by (simp add: findPotentialAllocations_def assms(1) clearStatus_cong(2)[OF assms(2)])

lemma eqv_setStatus:
  assumes "eqv D s t" "i < length (roadmapItems s)"
  shows "eqv (insert i D) (setStatus s i st) (setStatus t i st)"
proof -
  from assms have c: "clearStatus (roadmapItems s ! i) = clearStatus (roadmapItems t ! i)"
    and len: "length (roadmapItems s) = length (roadmapItems t)"
    by (simp_all add: eqv_def)
  have "clearStatus (roadmapItems (setStatus s i st) ! j) = clearStatus (roadmapItems (setStatus t i st) ! j) \<and>
        (j \<in> insert i D \<longrightarrow> roadmapItems (setStatus s i st) ! j = roadmapItems (setStatus t i st) ! j)"
    if "j < length (roadmapItems s)" for j
  proof (cases "j = i")
    case True
    then show ?thesis
      using that len by (simp add: setStatus_def clearStatus_cong(7)[OF c])
  next
    case False
    then show ?thesis using assms(1) that by (simp add: setStatus_def eqv_def)
  qed
  then show ?thesis
    using assms(1) by (simp add: eqv_def)
qed

lemma eqv_allocateItem:
  assumes "eqv D s t" "i < length (roadmapItems s)"
  shows "eqv (insert i D) (allocateItem s i) (allocateItem t i)"
proof -
  from assms have c: "clearStatus (roadmapItems s ! i) = clearStatus (roadmapItems t ! i)"
    and m: "teamMembers s = teamMembers t"
    by (simp_all add: eqv_def)
  let ?req = "getRequiredCapacity (roadmapItems s ! i)"
  let ?ps = "array_sort (\<lambda>a b. jsub (snd b) (snd a)) (findPotentialAllocations s (roadmapItems s ! i))"
  let ?ls = "allocateLoop i ?ps ?req s" and ?lt = "allocateLoop i ?ps ?req t"
  have l: "fst ?ls = fst ?lt" "eqv D (snd ?ls) (snd ?lt)"
    using eqv_allocateLoop[OF assms, of ?ps ?req] by simp_all
  have i': "i < length (roadmapItems (snd ?ls))" using assms(2) by simp
  from l(2) i' have c': "clearStatus (roadmapItems (snd ?ls) ! i) = clearStatus (roadmapItems (snd ?lt) ! i)"
    by (simp add: eqv_def)
  have s: "allocateItem s i = setStatus (snd ?ls) i (getItemStatus (roadmapItems (snd ?ls) ! i) (?req - fst ?ls))"
    by (simp add: allocateItem_def Let_def split_beta)
  have t: "allocateItem t i = setStatus (snd ?lt) i (getItemStatus (roadmapItems (snd ?ls) ! i) (?req - fst ?ls))"
    by (simp add: allocateItem_def Let_def split_beta clearStatus_cong(1)[OF c, symmetric]
        findPotentialAllocations_eqv[OF m c, symmetric] l(1) clearStatus_cong(3)[OF c'])
  show ?thesis unfolding s t using l(2) i' by (rule eqv_setStatus)
qed

lemma eqv_foldl:
  assumes "eqv D s t" "\<forall>i \<in> set xs. i < length (roadmapItems s)"
  shows "eqv (D \<union> set xs) (foldl allocateItem s xs) (foldl allocateItem t xs)"
  using assms
proof (induction xs arbitrary: D s t)
  case Nil
  then show ?case by simp
next
  case (Cons i xs)
  have "eqv (insert i D) (allocateItem s i) (allocateItem t i)"
    using Cons.prems by (intro eqv_allocateItem) simp_all
  moreover have "\<forall>j \<in> set xs. j < length (roadmapItems (allocateItem s i))"
    using Cons.prems(2) by simp
  ultimately have "eqv (insert i D \<union> set xs) (foldl allocateItem (allocateItem s i) xs)
      (foldl allocateItem (allocateItem t i) xs)"
    by (rule Cons.IH)
  then show ?case by simp
qed

lemma eqv_all_eq:
  assumes "eqv D s t" "{0 ..< length (roadmapItems s)} \<subseteq> D"
  shows "s = t"
proof -
  have "roadmapItems s = roadmapItems t"
  proof (rule nth_equalityI)
    show "length (roadmapItems s) = length (roadmapItems t)"
      using assms(1) by (simp add: eqv_def)
    show "roadmapItems s ! j = roadmapItems t ! j" if "j < length (roadmapItems s)" for j
      using assms that by (auto simp: eqv_def)
  qed
  then show ?thesis using assms(1) by (simp add: eqv_def)
qed

lemma insert_cmp_cong:
  "\<forall>y \<in> set ys. cmp x y = cmp' x y \<Longrightarrow> insert_cmp cmp x ys = insert_cmp cmp' x ys"
  by (induction ys) simp_all

lemma array_sort_cong:
  "\<forall>x \<in> set xs. \<forall>y \<in> set xs. cmp x y = cmp' x y \<Longrightarrow> array_sort cmp xs = array_sort cmp' xs"
proof (induction xs)
  case Nil
  then show ?case by (simp add: array_sort_def)
next
  case (Cons x xs)
  then have ih: "array_sort cmp xs = array_sort cmp' xs" by simp
  have "insert_cmp cmp x (array_sort cmp' xs) = insert_cmp cmp' x (array_sort cmp' xs)"
    using Cons.prems by (intro insert_cmp_cong) simp
  then show ?case using ih by (simp add: array_sort_def)
qed

lemma sortedItems_eqv:
  assumes "eqv D s t"
  shows "sortedItems s = sortedItems t"
proof -
  have len: "length (roadmapItems s) = length (roadmapItems t)"
    using assms by (simp add: eqv_def)
  have pr: "priority (roadmapItems s ! j) = priority (roadmapItems t ! j)"
    if "j < length (roadmapItems s)" for j
  proof -
    have "clearStatus (roadmapItems s ! j) = clearStatus (roadmapItems t ! j)"
      using assms that by (simp add: eqv_def)
    then show ?thesis by (rule clearStatus_cong(6))
  qed
  show ?thesis
    unfolding sortedItems_def len[symmetric]
    by (rule array_sort_cong) (simp add: pr)
qed

lemma eqv_reset_allocateAll: "eqv {} (reset (allocateAll s)) (reset s)"
proof -
  have f: "frame s (allocateAll s)" by (rule frame_allocateAll)
  have rm: "teamMembers (reset x) = map resetMember (teamMembers x)" for x
    by (simp add: reset_def resetMember_def[abs_def])
  have ri: "map clearStatus (roadmapItems (reset x)) = map clearItem (roadmapItems x)" for x
    by (simp add: reset_def clearItem_def clearStatus_def comp_def)
  have 1: "teamMembers (reset (allocateAll s)) = teamMembers (reset s)"
    using f by (simp add: frame_def rm)
  have "map clearStatus (roadmapItems (reset (allocateAll s))) = map clearStatus (roadmapItems (reset s))"
    using f by (simp add: frame_def ri)
  then have 2: "clearStatus (roadmapItems (reset (allocateAll s)) ! j) = clearStatus (roadmapItems (reset s) ! j)"
    if "j < length (roadmapItems s)" for j
    using that arg_cong[where f="\<lambda>xs. xs ! j"] nth_map[of j "roadmapItems (reset (allocateAll s))" clearStatus]
      nth_map[of j "roadmapItems (reset s)" clearStatus]
    by (metis length_allocateAll(1) length_reset(2))
  show ?thesis
    using 1 2 by (simp add: eqv_def)
qed

lemma allocateAll_idempotent: "allocateAll (allocateAll s) = allocateAll s"
proof -
  let ?s1 = "reset (allocateAll s)" and ?s0 = "reset s"
  have e: "eqv {} ?s1 ?s0" by (rule eqv_reset_allocateAll)
  have so: "sortedItems ?s1 = sortedItems ?s0" using e by (rule sortedItems_eqv)
  have "eqv ({} \<union> set (sortedItems ?s1)) (foldl allocateItem ?s1 (sortedItems ?s1))
      (foldl allocateItem ?s0 (sortedItems ?s1))"
    using e by (rule eqv_foldl) simp
  then have "foldl allocateItem ?s1 (sortedItems ?s1) = foldl allocateItem ?s0 (sortedItems ?s1)"
    by (rule eqv_all_eq) simp
  then have "foldl allocateItem ?s1 (sortedItems ?s1) = foldl allocateItem ?s0 (sortedItems ?s0)"
    unfolding so .
  moreover have "allocateAll (allocateAll s) = foldl allocateItem ?s1 (sortedItems ?s1)"
    unfolding allocateAll_def[of "allocateAll s"] Let_def by (rule refl)
  moreover have "allocateAll s = foldl allocateItem ?s0 (sortedItems ?s0)"
    unfolding allocateAll_def[of s] Let_def by (rule refl)
  ultimately show ?thesis by simp
qed

text \<open>
  C5: a second call of \<open>optimize\<close>, on the entities as the first call left them,
  returns the same report (and leaves the same state). The reset does not clear the
  statuses of the first run, but the second run assigns every status again.
\<close>

theorem optimize_idempotent:
  "snd (optimize (fst (optimize s))) = snd (optimize s) \<and>
   fst (optimize (fst (optimize s))) = fst (optimize s)"
proof -
  have again: "allocateAll (allocateAll s) = allocateAll s"
    by (rule allocateAll_idempotent)
  have "fst (optimize (fst (optimize s))) = allocateAll (allocateAll s)"
    by (simp add: optimize_fst)
  moreover have "snd (optimize (fst (optimize s))) = generateReport (allocateAll (allocateAll s))"
    by (simp add: optimize_fst optimize_snd)
  ultimately show ?thesis
    unfolding again by (simp add: optimize_fst optimize_snd)
qed

section \<open>The utilization rate\<close>






section \<open>An item that requires no capacity\<close>

lemma allocateLoop_nothing_remains: "r \<le> 0 \<Longrightarrow> allocateLoop i ps r s = (r, s)"
  by (cases ps) simp_all

lemma getItemStatus_zero: "getRequiredCapacity it = 0 \<Longrightarrow> getItemStatus it 0 = NotStaffed"
  by (simp add: getItemStatus_def jdiv_def)

lemma allocateItem_zero:
  "getRequiredCapacity (roadmapItems s ! i) = 0 \<Longrightarrow> allocateItem s i = setStatus s i NotStaffed"
  by (simp add: allocateItem_def allocateLoop_nothing_remains getItemStatus_zero)

lemma getRequiredCapacity_assignedMembers [simp]:
  "getRequiredCapacity (it\<lparr>assignedMembers := x\<rparr>) = getRequiredCapacity it"
  by (simp add: getRequiredCapacity_def Let_def cong: if_cong option.case_cong)

lemma unallocated_reset:
  "i < length (roadmapItems s) \<Longrightarrow> getRequiredCapacity (roadmapItems s ! i) = 0 \<Longrightarrow>
     unallocated i (reset s)"
  by (simp add: unallocated_def reset_def)

lemma unallocated_commit:
  "unallocated i s \<Longrightarrow> j \<noteq> i \<Longrightarrow> unallocated i (commit s p j a)"
  by (simp add: unallocated_def roadmapItems_commit allocations_commit new_Allocation_def)

lemma unallocated_setStatus: "unallocated i s \<Longrightarrow> unallocated i (setStatus s j st)"
  by (cases "j = i") (simp_all add: unallocated_def setStatus_def)

lemma unallocated_allocateItem:
  assumes "unallocated i s"
  shows "unallocated i (allocateItem s j)"
proof (cases "j = i")
  case True
  then have "allocateItem s j = setStatus s i NotStaffed"
    using assms by (simp add: allocateItem_zero unallocated_def)
  then show ?thesis
    using assms by (simp add: unallocated_setStatus)
next
  case False
  show ?thesis
    by (rule allocateItem_invariant[of "unallocated i", OF assms])
      (simp_all add: unallocated_commit[OF _ False] unallocated_setStatus)
qed

lemma not_staffed_allocateItem:
  assumes "unallocated i s" "allocationStatus (roadmapItems s ! i) = Some NotStaffed"
  shows "allocationStatus (roadmapItems (allocateItem s j) ! i) = Some NotStaffed"
proof (cases "j = i")
  case True
  then show ?thesis
    using assms by (simp add: allocateItem_zero unallocated_def setStatus_def)
next
  case False
  let ?P = "\<lambda>s. allocationStatus (roadmapItems s ! i) = Some NotStaffed"
  show ?thesis
    by (rule allocateItem_invariant[of ?P, OF assms(2)])
      (simp_all add: False roadmapItems_commit setStatus_def)
qed

lemma not_staffed_foldl:
  assumes "unallocated i s"
    and "i \<in> set xs \<or> allocationStatus (roadmapItems s ! i) = Some NotStaffed"
  shows "unallocated i (foldl allocateItem s xs) \<and>
         allocationStatus (roadmapItems (foldl allocateItem s xs) ! i) = Some NotStaffed"
  using assms
proof (induction xs arbitrary: s)
  case Nil
  then show ?case by simp
next
  case (Cons j xs)
  have u: "unallocated i (allocateItem s j)"
    using Cons.prems(1) by (rule unallocated_allocateItem)
  have "i \<in> set xs \<or> allocationStatus (roadmapItems (allocateItem s j) ! i) = Some NotStaffed"
  proof (cases "j = i")
    case True
    then show ?thesis
      using Cons.prems(1) by (simp add: allocateItem_zero unallocated_def setStatus_def)
  next
    case False
    then show ?thesis
      using Cons.prems not_staffed_allocateItem[of i s j] by auto
  qed
  with u show ?case using Cons.IH[of "allocateItem s j"] by simp
qed

lemma zero_required_run:
  assumes "i < length (roadmapItems s)" "getRequiredCapacity (roadmapItems s ! i) = 0"
  shows "unallocated i (allocateAll s)"
    and "allocationStatus (roadmapItems (allocateAll s) ! i) = Some NotStaffed"
proof -
  have "unallocated i (reset s)" using assms by (rule unallocated_reset)
  moreover have "i \<in> set (sortedItems (reset s))" using assms(1) by simp
  ultimately have "unallocated i (allocateAll s) \<and>
      allocationStatus (roadmapItems (allocateAll s) ! i) = Some NotStaffed"
    unfolding allocateAll_def Let_def by (intro not_staffed_foldl) simp_all
  then show "unallocated i (allocateAll s)"
    and "allocationStatus (roadmapItems (allocateAll s) ! i) = Some NotStaffed"
    by simp_all
qed

text \<open>
  C2 fails on the code. For every item whose required capacity is \<open>0\<close>, the run commits
  no allocation to it, as the claim says, but its status is \<open>not-staffed\<close>, where the
  claim says \<open>fully-staffed\<close>: \<open>getItemStatus\<close> computes \<open>0 / 0 = NaN\<close>, and every
  \<open>>=\<close> test against \<open>NaN\<close> is false. \<open>isFullyStaffed()\<close> of the same item is true.
\<close>

theorem zero_required_not_staffed:
  assumes "i < length (roadmapItems s)" "getRequiredCapacity (roadmapItems s ! i) = 0"
  shows "assignedMembers (roadmapItems (fst (optimize s)) ! i) = [] \<and>
         i \<notin> al_item ` set (allocations (fst (optimize s))) \<and>
         allocationStatus (roadmapItems (fst (optimize s)) ! i) = Some NotStaffed \<and>
         isFullyStaffed (roadmapItems (fst (optimize s)) ! i)"
proof -
  have u: "unallocated i (allocateAll s)"
    and st: "allocationStatus (roadmapItems (allocateAll s) ! i) = Some NotStaffed"
    using zero_required_run[OF assms] by simp_all
  from u have "isFullyStaffed (roadmapItems (allocateAll s) ! i)"
    by (simp add: unallocated_def isFullyStaffed_def getTotalAllocation_def)
  with u st show ?thesis
    by (simp add: optimize_fst unallocated_def)
qed

text \<open>
  The run with one member and one item of size \<open>0\<close>: the item requires no capacity, no
  allocation is committed, and the status of the item is \<open>not-staffed\<close>.
\<close>

theorem zero_required_not_staffed_witness:
  "getRequiredCapacity (roadmapItems zeroSizeRun ! 0) = 0 \<and>
   allocations (fst (optimize zeroSizeRun)) = [] \<and>
   assignedMembers (roadmapItems (fst (optimize zeroSizeRun)) ! 0) = [] \<and>
   allocationStatus (roadmapItems (fst (optimize zeroSizeRun)) ! 0) = Some NotStaffed \<and>
   allocationStatus (roadmapItems (fst (optimize zeroSizeRun)) ! 0) \<noteq> Some FullyStaffed \<and>
   isFullyStaffed (roadmapItems (fst (optimize zeroSizeRun)) ! 0)"
proof -
  have 1: "0 < length (roadmapItems zeroSizeRun)"
    by (simp add: zeroSizeRun_def new_AllocationOptimizer_def)
  have 2: "getRequiredCapacity (roadmapItems zeroSizeRun ! 0) = 0"
    by code_simp
  have 3: "allocations (fst (optimize zeroSizeRun)) = []"
    by code_simp
  show ?thesis
    using zero_required_not_staffed[OF 1 2] 2 3 by simp
qed

end
